theory Spec2Isabelle
  imports Complex_Main
begin

section \<open>Beam sampler for the HDP-HMM: a shallow embedding of model.hpp\<close>

text \<open>
  The development follows \<^verbatim>\<open>src/include/microscopes/hmm/model.hpp\<close>: the ragged array
  \<^verbatim>\<open>meta_vector\<close>, the sampler class \<^verbatim>\<open>hmm\<close> with its constructor and its five sampling
  stages. Every method is a function from the sampler state to a result; the external
  \<^verbatim>\<open>distributions\<close> library and the standard library's uniform distribution are
  parameters of the model. The loop counters are \<^verbatim>\<open>int\<close>s compared with \<^verbatim>\<open>size_t\<close> bounds;
  the model lets them range over the natural numbers below the bound.
\<close>

subsection \<open>Floating-point values\<close>

text \<open>
  A C++ \<^verbatim>\<open>float\<close> is modelled by its IEEE special values over exact reals: a finite
  value carries a real number, and the two infinities and NaN are separate values.
  Rounding, overflow of finite results to infinity and the sign of zero are not modelled
  (single and double precision are not told apart). Division by zero and comparison
  with NaN follow IEEE 754: \<open>0/0\<close> is NaN, \<open>x/0\<close> is an infinity for \<open>x \<noteq> 0\<close>, and every
  ordered comparison with NaN is false.
\<close>

datatype cfloat = Fin real | PInf | NInf | NaN

fun fl_finite :: "cfloat \<Rightarrow> bool" where
  "fl_finite (Fin x) = True"
| "fl_finite _ = False"

fun fl_negative :: "cfloat \<Rightarrow> bool" where
  "fl_negative (Fin x) = (x < 0)"
| "fl_negative NInf = True"
| "fl_negative _ = False"

definition fl_inf :: "bool \<Rightarrow> cfloat" where
  "fl_inf negative = (if negative then NInf else PInf)"

fun fl_uminus :: "cfloat \<Rightarrow> cfloat" where
  "fl_uminus (Fin x) = Fin (- x)"
| "fl_uminus PInf = NInf"
| "fl_uminus NInf = PInf"
| "fl_uminus NaN = NaN"

fun fl_add :: "cfloat \<Rightarrow> cfloat \<Rightarrow> cfloat" where
  "fl_add NaN b = NaN"
| "fl_add a NaN = NaN"
| "fl_add (Fin x) (Fin y) = Fin (x + y)"
| "fl_add PInf NInf = NaN"
| "fl_add NInf PInf = NaN"
| "fl_add PInf b = PInf"
| "fl_add NInf b = NInf"
| "fl_add (Fin x) b = b"

definition fl_sub :: "cfloat \<Rightarrow> cfloat \<Rightarrow> cfloat" where
  "fl_sub a b = fl_add a (fl_uminus b)"

fun fl_mul :: "cfloat \<Rightarrow> cfloat \<Rightarrow> cfloat" where
  "fl_mul NaN b = NaN"
| "fl_mul a NaN = NaN"
| "fl_mul (Fin x) (Fin y) = Fin (x * y)"
| "fl_mul (Fin x) b = (if x = 0 then NaN else fl_inf ((x < 0) \<noteq> fl_negative b))"
| "fl_mul a (Fin y) = (if y = 0 then NaN else fl_inf (fl_negative a \<noteq> (y < 0)))"
| "fl_mul a b = fl_inf (fl_negative a \<noteq> fl_negative b)"

fun fl_div :: "cfloat \<Rightarrow> cfloat \<Rightarrow> cfloat" where
  "fl_div NaN b = NaN"
| "fl_div a NaN = NaN"
| "fl_div (Fin x) (Fin y) =
     (if y \<noteq> 0 then Fin (x / y) else if x = 0 then NaN else fl_inf (x < 0))"
| "fl_div (Fin x) b = Fin 0"
| "fl_div a (Fin y) = fl_inf (fl_negative a \<noteq> (y < 0))"
| "fl_div a b = NaN"

fun fl_less :: "cfloat \<Rightarrow> cfloat \<Rightarrow> bool" where
  "fl_less NaN b = False"
| "fl_less a NaN = False"
| "fl_less (Fin x) (Fin y) = (x < y)"
| "fl_less a NInf = False"
| "fl_less PInf b = False"
| "fl_less a b = True"

definition fl_gt :: "cfloat \<Rightarrow> cfloat \<Rightarrow> bool" where
  "fl_gt a b = fl_less b a"

fun fl_ge :: "cfloat \<Rightarrow> cfloat \<Rightarrow> bool" where
  "fl_ge NaN b = False"
| "fl_ge a NaN = False"
| "fl_ge a b = (\<not> fl_less a b)"

fun fl_log :: "cfloat \<Rightarrow> cfloat" where
  "fl_log (Fin x) = (if 0 < x then Fin (ln x) else if x = 0 then NInf else NaN)"
| "fl_log PInf = PInf"
| "fl_log NInf = NaN"
| "fl_log NaN = NaN"

definition fl_of_nat :: "nat \<Rightarrow> cfloat" where
  "fl_of_nat n = Fin (real n)"

subsection \<open>Errors and results\<close>

text \<open>
  The first four errors are the taxonomy of the specification. \<open>OutOfRange\<close> stands for
  the undefined behaviour of an out-of-bounds access to a \<^verbatim>\<open>std::vector\<close> or an array:
  the model stops there, so that no property is proved of a run that read or wrote
  outside a container.
\<close>

datatype error =
  InvalidHyperparameter | DegenerateObservation | NumericUnderflow | NonConvergentGrowth
  | OutOfRange

definition ebind :: "error + 'a \<Rightarrow> ('a \<Rightarrow> error + 'b) \<Rightarrow> error + 'b" where
  "ebind r f = (case r of Inl e \<Rightarrow> Inl e | Inr x \<Rightarrow> f x)"

text \<open>A counted \<^verbatim>\<open>for\<close> loop over the given indices; the first error ends it.\<close>

fun for_loop :: "nat list \<Rightarrow> (nat \<Rightarrow> 'a \<Rightarrow> error + 'a) \<Rightarrow> 'a \<Rightarrow> error + 'a" where
  "for_loop [] body a = Inr a"
| "for_loop (i # is) body a =
     (case body i a of Inl e \<Rightarrow> Inl e | Inr a' \<Rightarrow> for_loop is body a')"

text \<open>\<^verbatim>\<open>v[i]\<close> as a read and as an assignment.\<close>

definition vec_at :: "'a list \<Rightarrow> nat \<Rightarrow> error + 'a" where
  "vec_at xs i = (if i < length xs then Inr (xs ! i) else Inl OutOfRange)"

definition vec_put :: "'a list \<Rightarrow> nat \<Rightarrow> 'a \<Rightarrow> error + 'a list" where
  "vec_put xs i v = (if i < length xs then Inr (xs[i := v]) else Inl OutOfRange)"

text \<open>\<^verbatim>\<open>size_t\<close> arithmetic wraps at \<open>2^64\<close>.\<close>

definition size_max :: nat where
  "size_max = 2 ^ 64 - 1"

definition size_t_add :: "nat \<Rightarrow> nat \<Rightarrow> nat" where
  "size_t_add a b = (a + b) mod 2 ^ 64"

definition size_t_pred :: "nat \<Rightarrow> nat" where
  "size_t_pred a = (if a = 0 then size_max else a - 1)"

subsection \<open>The ragged array \<^verbatim>\<open>meta_vector\<close>\<close>

type_synonym 'a meta_vector = "'a list list"

text \<open>The four constructors; \<open>z\<close> is the value-initialised element \<^verbatim>\<open>T()\<close>.\<close>

definition mv_empty :: "'a meta_vector" where
  "mv_empty = []"

definition mv_rows :: "nat \<Rightarrow> 'a meta_vector" where
  "mv_rows n = replicate n []"

definition mv_uniform :: "'a \<Rightarrow> nat \<Rightarrow> nat \<Rightarrow> 'a meta_vector" where
  "mv_uniform z size_1 size_2 = replicate size_1 (replicate size_2 z)"

definition mv_sized :: "'a \<Rightarrow> nat list \<Rightarrow> 'a meta_vector" where
  "mv_sized z sizes = map (\<lambda>n. replicate n z) sizes"

definition mv_at :: "'a meta_vector \<Rightarrow> nat \<Rightarrow> nat \<Rightarrow> error + 'a" where
  "mv_at d i j = ebind (vec_at d i) (\<lambda>row. vec_at row j)"

definition mv_put :: "'a meta_vector \<Rightarrow> nat \<Rightarrow> nat \<Rightarrow> 'a \<Rightarrow> error + 'a meta_vector" where
  "mv_put d i j v = ebind (vec_at d i) (\<lambda>row. ebind (vec_put row j v) (\<lambda>row'. vec_put d i row'))"

definition push_back :: "'a list \<Rightarrow> 'a \<Rightarrow> 'a list" where
  "push_back xs x = xs @ [x]"

text \<open>
  \<^verbatim>\<open>size()\<close>: the result vector is created with \<^verbatim>\<open>data_.size()\<close> zero entries, and the
  loop then appends one entry per row.
\<close>

definition size_mv :: "'a meta_vector \<Rightarrow> nat list" where
  "size_mv d = foldl (\<lambda>sizes vec. push_back sizes (length vec)) (replicate (length d) 0) d"

text \<open>\<^verbatim>\<open>sum(i)\<close> for \<^verbatim>\<open>T = size_t\<close>.\<close>

definition sum_mv :: "nat meta_vector \<Rightarrow> nat \<Rightarrow> error + nat" where
  "sum_mv d i = ebind (vec_at d i) (\<lambda>row. Inr (foldl size_t_add 0 row))"

subsection \<open>The external sampling library\<close>

text \<open>
  The functions of \<^verbatim>\<open>distributions\<close> and \<^verbatim>\<open>std::uniform_real_distribution\<close> are not part
  of the repository. They are taken as parameters: each reads the generator state \<open>'g\<close>
  and returns its draw with the new generator state.
\<close>

record 'g provider =
  uniform_real :: "'g \<Rightarrow> cfloat \<times> 'g"
  dist_sample_beta :: "'g \<Rightarrow> cfloat \<Rightarrow> cfloat \<Rightarrow> cfloat \<times> 'g"
  dist_sample_dirichlet :: "'g \<Rightarrow> nat \<Rightarrow> cfloat list \<Rightarrow> cfloat list \<times> 'g"
  dist_sample_from_likelihoods :: "'g \<Rightarrow> cfloat list \<Rightarrow> nat \<times> 'g"
  dist_sample_from_scores_overwrite :: "'g \<Rightarrow> cfloat list \<Rightarrow> nat \<times> 'g"
  dist_log_stirling1_row :: "nat \<Rightarrow> cfloat list"


subsection \<open>The sampler state\<close>

text \<open>
  The members of class \<^verbatim>\<open>hmm\<close>, a trailing underscore written \<open>_m\<close>, and the global \<^verbatim>\<open>rng\<close>.
  \<^verbatim>\<open>K\<close> is a \<^verbatim>\<open>size_t\<close> modelled as a natural number: its only assignment is \<^verbatim>\<open>K++\<close> at the
  end of an iteration of the growth loop, which is reached only after
  \<^verbatim>\<open>sample_pi_row(K)\<close> has read row \<open>K\<close> of \<^verbatim>\<open>counts_\<close> or found \<open>K = 0\<close>, so \<open>K\<close> is then below
  the length of a vector in memory and \<open>K + 1\<close> does not wrap.
\<close>

record 'g hmm =
  data_m :: "nat meta_vector"
  s_m :: "nat meta_vector"
  u_m :: "cfloat meta_vector"
  m_m :: "nat meta_vector"
  counts_m :: "nat meta_vector"
  pi_m :: "cfloat meta_vector"
  phi_m :: "cfloat meta_vector"
  beta_m :: "cfloat list"
  gamma_m :: cfloat
  alpha0_m :: cfloat
  H_m :: "cfloat list"
  memoized_log_stirling_m :: "nat \<Rightarrow> cfloat list option"
  max_pi :: cfloat
  K :: nat
  rng :: 'g

text \<open>
  The constructor. \<open>N\<close> is the template parameter; \<^verbatim>\<open>max_pi\<close> has no initialiser, so its
  value after construction is whatever the memory held (\<open>junk\<close>).
\<close>

definition hmm_ctor ::
  "nat \<Rightarrow> cfloat \<Rightarrow> cfloat \<Rightarrow> cfloat list \<Rightarrow> nat meta_vector \<Rightarrow> cfloat \<Rightarrow> 'g \<Rightarrow> error + 'g hmm" where
  "hmm_ctor N gamma alpha0 H data junk g = Inr
     \<lparr> data_m = data,
       s_m = mv_empty,
       u_m = mv_sized (Fin 0) (size_mv data),
       m_m = mv_uniform 0 1 1,
       counts_m = mv_uniform 0 1 1,
       pi_m = mv_uniform (Fin 0) 1 2,
       phi_m = mv_uniform (Fin 0) 1 N,
       beta_m = replicate 2 (Fin 0),
       gamma_m = gamma,
       alpha0_m = alpha0,
       H_m = H,
       memoized_log_stirling_m = Map.empty,
       max_pi = junk,
       K = 1,
       rng = g \<rparr>"

subsection \<open>Stage (c): \<^verbatim>\<open>sample_pi\<close> and \<^verbatim>\<open>sample_pi_row\<close>\<close>

text \<open>
  \<^verbatim>\<open>sample_pi_row(i)\<close>: the arrays \<^verbatim>\<open>alphas\<close> and \<^verbatim>\<open>new_pi\<close> have \<open>K + 1\<close> entries; the Dirichlet
  draw fills \<^verbatim>\<open>new_pi\<close>; the copy loop assigns \<^verbatim>\<open>new_pi[i]\<close> to every column \<open>j\<close> of row \<open>i\<close>.
\<close>

definition sample_pi_row :: "'g provider \<Rightarrow> nat \<Rightarrow> 'g hmm \<Rightarrow> error + 'g hmm" where
  "sample_pi_row P i st =
     ebind (for_loop [0..<K st]
              (\<lambda>k alphas.
                 ebind (mv_at (counts_m st) i k) (\<lambda>c.
                 ebind (vec_at (beta_m st) k) (\<lambda>b.
                 Inr (alphas[k := fl_add (fl_of_nat c) (fl_mul (alpha0_m st) b)]))))
              (replicate (K st + 1) (Fin 0))) (\<lambda>alphas.
     ebind (vec_at (beta_m st) (K st)) (\<lambda>bK.
     case dist_sample_dirichlet P (rng st) (K st + 1) (alphas[K st := fl_mul (alpha0_m st) bK]) of
       (new_pi, g) \<Rightarrow>
     ebind (for_loop [0..<K st + 1]
              (\<lambda>j pi'. ebind (vec_at new_pi i) (\<lambda>v. mv_put pi' i j v))
              (pi_m st)) (\<lambda>pi'.
     ebind (vec_at new_pi (K st)) (\<lambda>nK.
     Inr (st\<lparr>pi_m := pi',
              max_pi := (if fl_gt (max_pi st) nK then max_pi st else nK),
              rng := g\<rparr>)))))"

definition sample_pi :: "'g provider \<Rightarrow> 'g hmm \<Rightarrow> error + 'g hmm" where
  "sample_pi P st = for_loop [0..<K st] (sample_pi_row P) (st\<lparr>max_pi := Fin 0\<rparr>)"

subsection \<open>Stage (e): \<^verbatim>\<open>sample_m\<close> and \<^verbatim>\<open>sample_beta\<close>\<close>

text \<open>
  The body of the two loops of \<^verbatim>\<open>sample_m\<close>, for one pair \<open>(i, j)\<close>. The row of log Stirling
  numbers is the cached one, or is computed and cached when the cache has none for \<open>n_ij\<close>.
\<close>

definition sample_m_cell :: "'g provider \<Rightarrow> nat \<Rightarrow> nat \<Rightarrow> 'g hmm \<Rightarrow> error + 'g hmm" where
  "sample_m_cell P i j st =
     ebind (mv_at (counts_m st) i j) (\<lambda>n_ij.
     case (case memoized_log_stirling_m st n_ij of
             None \<Rightarrow> dist_log_stirling1_row P n_ij
           | Some row \<Rightarrow> row) of stirling_row \<Rightarrow>
     ebind (for_loop [0..<n_ij]
              (\<lambda>m scores.
                 ebind (vec_at stirling_row (m + 1)) (\<lambda>sr.
                 ebind (vec_at (beta_m st) j) (\<lambda>b.
                 Inr (scores[m := fl_add sr (fl_mul (fl_of_nat (m + 1))
                                   (fl_add (fl_log (alpha0_m st)) (fl_log b)))]))))
              (replicate n_ij (Fin 0))) (\<lambda>scores.
     case dist_sample_from_scores_overwrite P (rng st) scores of (idx, g) \<Rightarrow>
     ebind (mv_put (m_m st) i j (size_t_add idx 1)) (\<lambda>m'.
     Inr (st\<lparr>m_m := m',
              memoized_log_stirling_m := (memoized_log_stirling_m st)(n_ij \<mapsto> stirling_row),
              rng := g\<rparr>))))"

definition sample_m :: "'g provider \<Rightarrow> 'g hmm \<Rightarrow> error + 'g hmm" where
  "sample_m P st =
     for_loop [0..<K st] (\<lambda>i. for_loop [0..<K st] (\<lambda>j. sample_m_cell P i j)) st"

definition sample_beta :: "'g provider \<Rightarrow> 'g hmm \<Rightarrow> error + 'g hmm" where
  "sample_beta P st0 =
     ebind (sample_m P st0) (\<lambda>st.
     ebind (for_loop [0..<K st]
              (\<lambda>k alphas. ebind (sum_mv (m_m st) k) (\<lambda>row_sum. Inr (alphas[k := fl_of_nat row_sum])))
              (replicate (K st + 1) (Fin 0))) (\<lambda>alphas.
     case dist_sample_dirichlet P (rng st) (K st + 1) (alphas[K st := gamma_m st]) of
       (new_beta, g) \<Rightarrow>
     ebind (for_loop [0..<K st + 1]
              (\<lambda>k beta. ebind (vec_at new_beta k) (\<lambda>v. vec_put beta k v))
              (beta_m st)) (\<lambda>beta.
     Inr (st\<lparr>beta_m := beta, rng := g\<rparr>))))"

subsection \<open>Stage (a): \<^verbatim>\<open>sample_u\<close>\<close>

text \<open>
  The body of the two slice loops for one position \<open>(i, j)\<close>; the loop state is the sampler
  state with the local \<^verbatim>\<open>min_u\<close>.
\<close>

definition sample_u_cell ::
  "'g provider \<Rightarrow> nat \<Rightarrow> nat \<Rightarrow> 'g hmm \<times> cfloat \<Rightarrow> error + 'g hmm \<times> cfloat" where
  "sample_u_cell P i j = (\<lambda>(st, min_u).
     ebind (if j = 0 then Inr 0 else mv_at (s_m st) i (j - 1)) (\<lambda>prev_state.
     ebind (mv_at (s_m st) i j) (\<lambda>cur.
     ebind (mv_at (pi_m st) prev_state cur) (\<lambda>p.
     case uniform_real P (rng st) of (r, g) \<Rightarrow>
     ebind (mv_put (u_m st) i j (fl_div r p)) (\<lambda>u'.
     Inr (st\<lparr>u_m := u', rng := g\<rparr>,
          if fl_less min_u (fl_div r p) then min_u else fl_div r p))))))"

text \<open>The slice loops: \<^verbatim>\<open>sizes\<close> is what \<^verbatim>\<open>u_.size()\<close> returns, and \<^verbatim>\<open>min_u\<close> starts at 1.\<close>

definition sample_u_slices :: "'g provider \<Rightarrow> 'g hmm \<Rightarrow> error + 'g hmm \<times> cfloat" where
  "sample_u_slices P st =
     for_loop [0..<length (size_mv (u_m st))]
       (\<lambda>i. for_loop [0..<size_mv (u_m st) ! i] (\<lambda>j. sample_u_cell P i j))
       (st, Fin 1)"

text \<open>One pass of the inner loop of the growth loop, for row \<open>i\<close>.\<close>

definition grow_row :: "'g provider \<Rightarrow> nat \<Rightarrow> 'g hmm \<Rightarrow> error + 'g hmm" where
  "grow_row P i st =
     ebind (mv_at (pi_m st) i (K st)) (\<lambda>pu.
     ebind (vec_at (beta_m st) (K st)) (\<lambda>bK.
     ebind (vec_at (beta_m st) (K st + 1)) (\<lambda>bK1.
     case dist_sample_beta P (rng st) (fl_mul (alpha0_m st) bK) (fl_mul (alpha0_m st) bK1) of
       (pk, g) \<Rightarrow>
     ebind (mv_put (pi_m st) i (K st) (fl_mul pu pk)) (\<lambda>pi1.
     ebind (vec_at pi1 i) (\<lambda>row.
     case pi1[i := push_back row (fl_mul pu (fl_sub (Fin 1) pk))] of pi2 \<Rightarrow>
     ebind (mv_at pi2 i (K st)) (\<lambda>a.
     ebind (mv_at pi2 i (K st + 1)) (\<lambda>b.
     case (if fl_gt (max_pi st) a then max_pi st else a) of mp \<Rightarrow>
     Inr (st\<lparr>pi_m := pi2,
              max_pi := (if fl_gt mp b then mp else b),
              rng := g\<rparr>))))))))"

text \<open>One iteration of the growth loop: the body of \<^verbatim>\<open>while (max_pi > min_u)\<close>.\<close>

definition grow_step :: "'g provider \<Rightarrow> 'g hmm \<Rightarrow> error + 'g hmm" where
  "grow_step P st =
     ebind (sample_pi_row P (K st)
              (st\<lparr>pi_m := push_back (pi_m st) (replicate (K st + 1) (Fin 0))\<rparr>)) (\<lambda>st2.
     ebind (vec_at (beta_m st2) (K st2)) (\<lambda>bu.
     case dist_sample_beta P (rng st2) (Fin 1) (gamma_m st2) of (bk, g) \<Rightarrow>
     ebind (for_loop [0..<K st2 + 1] (grow_row P)
              (st2\<lparr>beta_m := push_back ((beta_m st2)[K st2 := fl_mul bu bk])
                                        (fl_mul bu (fl_sub (Fin 1) bk)),
                   max_pi := Fin 0,
                   rng := g\<rparr>)) (\<lambda>st4.
     Inr (st4\<lparr>K := K st4 + 1\<rparr>))))"

function sample_u_grow :: "'g provider \<Rightarrow> cfloat \<Rightarrow> 'g hmm \<Rightarrow> error + 'g hmm" where
  "sample_u_grow P min_u st =
     (if fl_gt (max_pi st) min_u
      then (case grow_step P st of Inl e \<Rightarrow> Inl e | Inr st' \<Rightarrow> sample_u_grow P min_u st')
      else Inr st)"
  by pat_completeness auto

text \<open>
  The growth loop terminates: \<^verbatim>\<open>sample_pi_row(K)\<close> reads \<^verbatim>\<open>counts_[K][0]\<close> as soon as \<open>K > 0\<close>,
  the loop never extends \<^verbatim>\<open>counts_\<close>, and every completed iteration increments \<open>K\<close>. So the
  number of rows of \<^verbatim>\<open>counts_\<close> bounds the number of completed iterations.
\<close>

lemma ebind_Inr_iff: "ebind r f = Inr y \<longleftrightarrow> (\<exists>x. r = Inr x \<and> f x = Inr y)"
  by (cases r) (simp_all add: ebind_def)

lemma ebind_Inl_iff: "ebind r f = Inl e \<longleftrightarrow> (r = Inl e \<or> (\<exists>x. r = Inr x \<and> f x = Inl e))"
  by (cases r) (simp_all add: ebind_def)

lemma for_loop_invariant:
  assumes "for_loop ns body a = Inr a'" and "I a"
    and "\<And>i x y. I x \<Longrightarrow> body i x = Inr y \<Longrightarrow> I y"
  shows "I a'"
  using assms(1,2)
proof (induction ns arbitrary: a)
  case Nil
  then show ?case by simp
next
  case (Cons n ns)
  then show ?case by (auto split: sum.splits intro: assms(3))
qed

lemma for_loop_first:
  "for_loop (n # ns) body a = Inr a' \<Longrightarrow> \<exists>y. body n a = Inr y"
  by (auto split: sum.splits)

lemma for_loop_upt_first:
  "0 < n \<Longrightarrow> for_loop [0..<n] body a = Inr a' \<Longrightarrow> \<exists>y. body 0 a = Inr y"
  by (simp add: upt_conv_Cons split: sum.splits)

lemma mv_at_Inr: "mv_at d i j = Inr v \<Longrightarrow> i < length d \<and> j < length (d ! i) \<and> v = d ! i ! j"
  by (auto simp: mv_at_def vec_at_def ebind_Inr_iff split: if_splits)

lemma sample_pi_row_frame:
  assumes "sample_pi_row P i st = Inr st'"
  shows "K st' = K st \<and> counts_m st' = counts_m st \<and> (0 < K st \<longrightarrow> i < length (counts_m st))"
proof -
  have frame: "K st' = K st \<and> counts_m st' = counts_m st"
    using assms
    by (auto simp: sample_pi_row_def ebind_Inr_iff case_prod_beta)
  have "i < length (counts_m st)" if pos: "0 < K st"
  proof -
    from assms obtain alphas where
      "for_loop [0..<K st]
              (\<lambda>k alphas.
                 ebind (mv_at (counts_m st) i k) (\<lambda>c.
                 ebind (vec_at (beta_m st) k) (\<lambda>b.
                 Inr (alphas[k := fl_add (fl_of_nat c) (fl_mul (alpha0_m st) b)]))))
              (replicate (K st + 1) (Fin 0)) = Inr alphas"
      by (auto simp: sample_pi_row_def ebind_Inr_iff)
    from for_loop_upt_first[OF pos this]
    obtain c where "mv_at (counts_m st) i 0 = Inr c"
      by (auto simp: ebind_Inr_iff)
    then show ?thesis by (auto dest: mv_at_Inr)
  qed
  with frame show ?thesis by simp
qed

lemma grow_row_frame:
  "grow_row P i st = Inr st' \<Longrightarrow> K st' = K st \<and> counts_m st' = counts_m st"
  by (auto simp: grow_row_def ebind_Inr_iff case_prod_beta)

lemma grow_rows_frame:
  assumes "for_loop ns (grow_row P) st = Inr st'"
  shows "K st' = K st \<and> counts_m st' = counts_m st"
  using assms
  by (rule for_loop_invariant[where I = "\<lambda>x. K x = K st \<and> counts_m x = counts_m st"])
     (auto dest: grow_row_frame)

lemma grow_step_frame:
  assumes "grow_step P st = Inr st'"
  shows "K st' = K st + 1 \<and> counts_m st' = counts_m st \<and> K st \<le> length (counts_m st)"
  using assms
  by (cases "K st = 0")
     (auto simp: grow_step_def ebind_Inr_iff case_prod_beta simp del: upt_Suc
           dest!: sample_pi_row_frame grow_rows_frame)

termination sample_u_grow
  by (relation "measure (\<lambda>(P, min_u, st). Suc (length (counts_m st)) - K st)")
     (auto dest!: grow_step_frame)

declare sample_u_grow.simps [simp del]

definition sample_u :: "'g provider \<Rightarrow> 'g hmm \<Rightarrow> error + 'g hmm" where
  "sample_u P st = ebind (sample_u_slices P st) (\<lambda>(st1, min_u). sample_u_grow P min_u st1)"

subsection \<open>Stage (b): \<^verbatim>\<open>sample_s\<close>\<close>

text \<open>
  The value assigned to \<^verbatim>\<open>probs[t][k]\<close> before the total is updated: the branch for
  \<open>t = 0\<close>, and the sum over \<open>l\<close> times the emission probability otherwise.
\<close>

definition forward_cell ::
  "'g hmm \<Rightarrow> nat \<Rightarrow> nat \<Rightarrow> cfloat meta_vector \<Rightarrow> nat \<Rightarrow> error + cfloat" where
  "forward_cell st i t probs k =
     (if t = 0 then
        ebind (mv_at (data_m st) i t) (\<lambda>obs.
        ebind (mv_at (phi_m st) k obs) (\<lambda>e.
        ebind (mv_at (u_m st) i t) (\<lambda>uv.
        ebind (mv_at (pi_m st) 0 k) (\<lambda>p.
        Inr (fl_mul e (if fl_less uv p then Fin 1 else Fin 0))))))
      else
        ebind (for_loop [0..<K st]
                 (\<lambda>l acc.
                    ebind (mv_at (u_m st) i t) (\<lambda>uv.
                    ebind (mv_at (pi_m st) l k) (\<lambda>p.
                    if fl_less uv p
                    then ebind (mv_at probs (t - 1) l) (\<lambda>q. Inr (fl_add acc q))
                    else Inr acc)))
                 (Fin 0)) (\<lambda>acc.
        ebind (mv_at (data_m st) i t) (\<lambda>obs.
        ebind (mv_at (phi_m st) k obs) (\<lambda>e.
        Inr (fl_mul acc e)))))"

text \<open>
  The first loop over \<open>k\<close> at timestep \<open>t\<close>, after \<^verbatim>\<open>probs[t]\<close> has become a row of \<open>K\<close>
  entries: it fills the row and accumulates \<^verbatim>\<open>total_prob\<close>, which it returns with the
  array. The writes to \<^verbatim>\<open>probs[t][k]\<close> are in range once the row exists.
\<close>

definition forward_accumulate ::
  "'g hmm \<Rightarrow> nat \<Rightarrow> nat \<Rightarrow> cfloat meta_vector \<Rightarrow> error + cfloat meta_vector \<times> cfloat" where
  "forward_accumulate st i t probs =
     ebind (vec_put probs t (replicate (K st) (Fin 0))) (\<lambda>pr0.
     for_loop [0..<K st]
       (\<lambda>k (pr, total_prob).
          ebind (forward_cell st i t pr k) (\<lambda>v.
          Inr (pr[t := (pr ! t)[k := v]], fl_add total_prob v)))
       (pr0, Fin 0))"

text \<open>The second loop over \<open>k\<close>: \<^verbatim>\<open>probs[t][k] /= total_prob\<close>.\<close>

definition forward_normalize ::
  "nat \<Rightarrow> nat \<Rightarrow> cfloat \<Rightarrow> cfloat meta_vector \<Rightarrow> cfloat meta_vector" where
  "forward_normalize n t total_prob probs =
     foldl (\<lambda>pr k. pr[t := (pr ! t)[k := fl_div (pr ! t ! k) total_prob]]) probs [0..<n]"

definition forward_timestep ::
  "'g hmm \<Rightarrow> nat \<Rightarrow> nat \<Rightarrow> cfloat meta_vector \<Rightarrow> error + cfloat meta_vector" where
  "forward_timestep st i t probs =
     ebind (forward_accumulate st i t probs) (\<lambda>(pr, total_prob).
     Inr (forward_normalize (K st) t total_prob pr))"

text \<open>The forward filter of sequence \<open>i\<close>, where \<open>T\<close> is \<^verbatim>\<open>sizes[i]\<close>.\<close>

definition forward_filter :: "'g hmm \<Rightarrow> nat \<Rightarrow> nat \<Rightarrow> error + cfloat meta_vector" where
  "forward_filter st i T = for_loop [0..<T] (forward_timestep st i) (mv_rows T)"

text \<open>One pass of the backward loop, at timestep \<open>t > 0\<close>.\<close>

definition backward_step ::
  "'g provider \<Rightarrow> nat \<Rightarrow> nat \<Rightarrow> 'g hmm \<times> cfloat meta_vector
     \<Rightarrow> error + 'g hmm \<times> cfloat meta_vector" where
  "backward_step P i t = (\<lambda>(st, probs).
     ebind (for_loop [0..<K st]
              (\<lambda>k pr.
                 ebind (mv_at (u_m st) i t) (\<lambda>uv.
                 ebind (mv_at (s_m st) i t) (\<lambda>cur.
                 ebind (mv_at (pi_m st) k cur) (\<lambda>p.
                 if fl_ge uv p then mv_put pr (t - 1) k (Fin 0) else Inr pr))))
              probs) (\<lambda>pr.
     ebind (vec_at pr (t - 1)) (\<lambda>row.
     case dist_sample_from_likelihoods P (rng st) row of (idx, g) \<Rightarrow>
     ebind (mv_put (s_m st) i (t - 1) idx) (\<lambda>s'.
     Inr (st\<lparr>s_m := s', rng := g\<rparr>, pr)))))"

text \<open>
  Backward sampling of sequence \<open>i\<close>: the last timestep is \<^verbatim>\<open>sizes[i]-1\<close> in \<^verbatim>\<open>size_t\<close>
  arithmetic, and the loop runs \<open>t\<close> from \<open>T - 1\<close> down to 1. No statement follows the
  comment \<^verbatim>\<open>// Update counts\<close>.
\<close>

definition backward_sample ::
  "'g provider \<Rightarrow> nat \<Rightarrow> nat \<Rightarrow> 'g hmm \<Rightarrow> cfloat meta_vector \<Rightarrow> error + 'g hmm" where
  "backward_sample P i T st probs =
     ebind (vec_at probs (size_t_pred T)) (\<lambda>row.
     case dist_sample_from_likelihoods P (rng st) row of (idx, g) \<Rightarrow>
     ebind (mv_put (s_m st) i (size_t_pred T) idx) (\<lambda>s'.
     ebind (for_loop (rev [1..<T]) (backward_step P i) (st\<lparr>s_m := s', rng := g\<rparr>, probs))
       (\<lambda>(st', pr). Inr st')))"

text \<open>
  \<^verbatim>\<open>sample_s\<close>: \<^verbatim>\<open>sizes\<close> is what \<^verbatim>\<open>data_.size()\<close> returns, and \<^verbatim>\<open>counts_\<close> becomes a ragged
  array of \<^verbatim>\<open>pi_.size().size()\<close> empty rows.
\<close>

definition sample_s :: "'g provider \<Rightarrow> 'g hmm \<Rightarrow> error + 'g hmm" where
  "sample_s P st =
     for_loop [0..<length (size_mv (data_m st))]
       (\<lambda>i st1.
          ebind (forward_filter st1 i (size_mv (data_m st) ! i)) (\<lambda>probs.
          backward_sample P i (size_mv (data_m st) ! i) st1 probs))
       (st\<lparr>counts_m := mv_rows (length (size_mv (pi_m st)))\<rparr>)"

subsection \<open>Stage (d): \<^verbatim>\<open>sample_phi\<close>\<close>

text \<open>The body of \<^verbatim>\<open>sample_phi\<close> is empty.\<close>

definition sample_phi :: "'g hmm \<Rightarrow> error + 'g hmm" where
  "sample_phi st = Inr st"

subsection \<open>The sweep\<close>

definition sample_beam :: "'g provider \<Rightarrow> 'g hmm \<Rightarrow> error + 'g hmm" where
  "sample_beam P st =
     ebind (sample_u P st) (\<lambda>st1.
     ebind (sample_s P st1) (\<lambda>st2.
     ebind (sample_pi P st2) (\<lambda>st3.
     ebind (sample_phi st3) (\<lambda>st4.
     sample_beta P st4))))"

text \<open>A sequence of \<open>n\<close> sweeps.\<close>

fun sweeps :: "'g provider \<Rightarrow> nat \<Rightarrow> 'g hmm \<Rightarrow> error + 'g hmm" where
  "sweeps P 0 st = Inr st"
| "sweeps P (Suc n) st = ebind (sample_beam P st) (sweeps P n)"

subsection \<open>Sample inputs\<close>

text \<open>
  A deterministic stand-in for the sampling library: every uniform draw is \<open>r\<close>, every Beta
  draw is \<open>b\<close>, every Dirichlet draw is the vector \<open>dir\<close>, every categorical draw is the
  index \<open>idx\<close>, and the generator state counts the draws.
\<close>

definition det_provider :: "cfloat \<Rightarrow> cfloat \<Rightarrow> cfloat list \<Rightarrow> nat \<Rightarrow> nat provider" where
  "det_provider r b dir idx =
     \<lparr> uniform_real = (\<lambda>g. (r, g + 1)),
       dist_sample_beta = (\<lambda>g a c. (b, g + 1)),
       dist_sample_dirichlet = (\<lambda>g n alphas. (dir, g + 1)),
       dist_sample_from_likelihoods = (\<lambda>g probs. (idx, g + 1)),
       dist_sample_from_scores_overwrite = (\<lambda>g scores. (idx, g + 1)),
       dist_log_stirling1_row = (\<lambda>n. replicate (n + 1) (Fin 0)) \<rparr>"

definition prov_halves :: "nat provider" where
  "prov_halves = det_provider (Fin (1/2)) (Fin (1/2)) [Fin (1/2), Fin (1/2)] 0"

definition prov_quarters :: "nat provider" where
  "prov_quarters = det_provider (Fin (1/2)) (Fin (1/2)) [Fin (1/4), Fin (3/4)] 0"

text \<open>
  A sampler with one state and the shapes the constructor gives (\<open>m\<close> and \<open>counts\<close> are
  \<open>1 \<times> 1\<close>, \<open>pi\<close> is \<open>1 \<times> 2\<close>, \<open>beta\<close> has two entries), without observations.
\<close>

definition toy :: "nat hmm" where
  "toy = \<lparr> data_m = [], s_m = [], u_m = [], m_m = [[0]], counts_m = [[0]],
           pi_m = [[Fin (1/2), Fin (1/2)]], phi_m = [[Fin (1/2), Fin (1/2)]],
           beta_m = [Fin (1/2), Fin (1/2)], gamma_m = Fin 1, alpha0_m = Fin 1,
           H_m = [Fin 1, Fin 1], memoized_log_stirling_m = Map.empty,
           max_pi = Fin (1/2), K = 1, rng = 0 \<rparr>"

text \<open>The same sampler with one observed sequence of one and of two symbols.\<close>

definition toy_one :: "nat hmm" where
  "toy_one = toy\<lparr>data_m := [[0]], s_m := [[0]], u_m := [[Fin (1/4)]]\<rparr>"

definition toy_seq :: "nat hmm" where
  "toy_seq = toy\<lparr>data_m := [[0, 0]], s_m := [[0, 0]], u_m := [[Fin (1/4), Fin (1/4)]]\<rparr>"

text \<open>One observation whose emission probability is zero in the only state.\<close>

definition toy_zero :: "nat hmm" where
  "toy_zero = toy\<lparr>data_m := [[0]], s_m := [[0]], u_m := [[Fin (1/4)]],
                  phi_m := [[Fin 0, Fin 0]]\<rparr>"

text \<open>Room for a second state: \<open>counts\<close> has two rows.\<close>

definition toy_room :: "nat hmm" where
  "toy_room = toy\<lparr>counts_m := [[0], [0]]\<rparr>"

text \<open>A sampler without instantiated states.\<close>

definition toy_none :: "nat hmm" where
  "toy_none = toy\<lparr>K := 0\<rparr>"





subsection \<open>Predicates of the proofs\<close>





section \<open>Properties\<close>

subsection \<open>What the stages leave unchanged\<close>

lemma for_loop_nested_invariant:
  assumes "for_loop ns (\<lambda>i. for_loop (ms i) (body i)) a = Inr a'" and "I a"
    and "\<And>i j x y. I x \<Longrightarrow> body i j x = Inr y \<Longrightarrow> I y"
  shows "I a'"
  using assms(1,2)
  by (rule for_loop_invariant) (erule for_loop_invariant, assumption, erule (1) assms(3))

lemma sample_u_cell_K: "sample_u_cell P i j x = Inr y \<Longrightarrow> K (fst y) = K (fst x)"
  by (auto simp: sample_u_cell_def ebind_Inr_iff case_prod_beta)

lemma sample_u_slices_K:
  assumes "sample_u_slices P st = Inr y"
  shows "K (fst y) = K st"
  using assms unfolding sample_u_slices_def
  by (rule for_loop_nested_invariant[where I = "\<lambda>x. K (fst x) = K st"])
     (auto dest: sample_u_cell_K)

lemma sample_u_grow_K: "sample_u_grow P min_u st = Inr st' \<Longrightarrow> K st \<le> K st'"
proof (induction P min_u st rule: sample_u_grow.induct)
  case (1 P min_u st)
  show ?case
  proof (cases "fl_gt (max_pi st) min_u")
    case False
    with "1.prems" show ?thesis by (simp add: sample_u_grow.simps)
  next
    case True
    with "1.prems" obtain st1 where step: "grow_step P st = Inr st1"
      and rest: "sample_u_grow P min_u st1 = Inr st'"
      by (auto simp: sample_u_grow.simps[of P min_u st] split: sum.splits)
    from "1.IH"[OF True step rest] grow_step_frame[OF step] show ?thesis by simp
  qed
qed

lemma sample_u_K:
  assumes "sample_u P st = Inr st'"
  shows "K st \<le> K st'"
proof -
  from assms obtain st1 min_u where a: "sample_u_slices P st = Inr (st1, min_u)"
    and b: "sample_u_grow P min_u st1 = Inr st'"
    by (auto simp: sample_u_def ebind_Inr_iff)
  from sample_u_slices_K[OF a] sample_u_grow_K[OF b] show ?thesis by simp
qed

lemma backward_step_K: "backward_step P i t x = Inr y \<Longrightarrow> K (fst y) = K (fst x)"
  by (auto simp: backward_step_def ebind_Inr_iff case_prod_beta)

lemma backward_sample_frame:
  assumes "backward_sample P i T st probs = Inr st'"
  shows "K st' = K st \<and> counts_m st' = counts_m st"
proof -
  have step: "\<And>t x y. backward_step P i t x = Inr y
      \<Longrightarrow> K (fst y) = K (fst x) \<and> counts_m (fst y) = counts_m (fst x)"
    by (auto simp: backward_step_def ebind_Inr_iff case_prod_beta)
  from assms obtain x y where
    loop: "for_loop (rev [1..<T]) (backward_step P i) x = Inr y"
    and x: "K (fst x) = K st \<and> counts_m (fst x) = counts_m st" and y: "st' = fst y"
    by (auto simp: backward_sample_def ebind_Inr_iff case_prod_beta)
  from loop x have "K (fst y) = K st \<and> counts_m (fst y) = counts_m st"
    by (rule for_loop_invariant) (auto dest: step)
  with y show ?thesis by simp
qed

lemma sample_s_frame:
  assumes "sample_s P st = Inr st'"
  shows "K st' = K st \<and> counts_m st' = mv_rows (length (size_mv (pi_m st)))"
  using assms unfolding sample_s_def
  by (rule for_loop_invariant[where
        I = "\<lambda>x. K x = K st \<and> counts_m x = mv_rows (length (size_mv (pi_m st)))"])
     (auto simp: ebind_Inr_iff dest!: backward_sample_frame)

lemma sample_pi_K:
  assumes "sample_pi P st = Inr st'"
  shows "K st' = K st"
  using assms unfolding sample_pi_def
  by (rule for_loop_invariant[where I = "\<lambda>x. K x = K st"])
     (auto dest: sample_pi_row_frame)

lemma sample_m_cell_frame:
  "sample_m_cell P i j st = Inr st' \<Longrightarrow> K st' = K st \<and> counts_m st' = counts_m st"
  by (auto simp: sample_m_cell_def ebind_Inr_iff case_prod_beta)

lemma sample_m_frame:
  assumes "sample_m P st = Inr st'"
  shows "K st' = K st \<and> counts_m st' = counts_m st"
  using assms unfolding sample_m_def
  by (rule for_loop_nested_invariant[where I = "\<lambda>x. K x = K st \<and> counts_m x = counts_m st"])
     (auto dest: sample_m_cell_frame)

lemma sample_beta_K:
  assumes "sample_beta P st = Inr st'"
  shows "K st' = K st"
  using assms
  by (auto simp: sample_beta_def ebind_Inr_iff case_prod_beta dest: sample_m_frame)

lemma sample_beam_K:
  assumes "sample_beam P st = Inr st'"
  shows "K st \<le> K st'"
  using assms
  by (auto simp: sample_beam_def sample_phi_def ebind_Inr_iff
      dest!: sample_u_K sample_s_frame sample_pi_K sample_beta_K)

lemma sweeps_K: "sweeps P n st = Inr st' \<Longrightarrow> K st \<le> K st'"
proof (induction n arbitrary: st)
  case 0
  then show ?case by simp
next
  case (Suc n)
  then obtain st1 where "sample_beam P st = Inr st1" "sweeps P n st1 = Inr st'"
    by (auto simp: ebind_Inr_iff)
  with Suc.IH[of st1] sample_beam_K[of P st st1] show ?case by simp
qed

subsection \<open>The only error is an out-of-range access\<close>

lemma vec_at_error: "vec_at xs i = Inl e \<Longrightarrow> e = OutOfRange"
  by (simp add: vec_at_def split: if_splits)

lemma vec_put_error: "vec_put xs i v = Inl e \<Longrightarrow> e = OutOfRange"
  by (simp add: vec_put_def split: if_splits)

lemma mv_at_error: "mv_at d i j = Inl e \<Longrightarrow> e = OutOfRange"
  by (auto simp: mv_at_def ebind_Inl_iff dest: vec_at_error)

lemma mv_put_error: "mv_put d i j v = Inl e \<Longrightarrow> e = OutOfRange"
  by (auto simp: mv_put_def ebind_Inl_iff dest: vec_at_error vec_put_error)

lemma sum_mv_error: "sum_mv d i = Inl e \<Longrightarrow> e = OutOfRange"
  by (auto simp: sum_mv_def ebind_Inl_iff dest: vec_at_error)

lemmas access_errors = vec_at_error vec_put_error mv_at_error mv_put_error sum_mv_error

lemma for_loop_error:
  assumes "for_loop ns body a = Inl e"
    and "\<And>i x e. body i x = Inl e \<Longrightarrow> e = OutOfRange"
  shows "e = OutOfRange"
  using assms(1)
proof (induction ns arbitrary: a)
  case Nil
  then show ?case by simp
next
  case (Cons n ns)
  then show ?case by (auto split: sum.splits dest: assms(2))
qed

lemma sample_pi_row_error: "sample_pi_row P i st = Inl e \<Longrightarrow> e = OutOfRange"
  unfolding sample_pi_row_def
  by (auto simp: ebind_Inl_iff case_prod_beta split: if_splits
           elim!: for_loop_error dest: access_errors)

lemma sample_pi_error: "sample_pi P st = Inl e \<Longrightarrow> e = OutOfRange"
  unfolding sample_pi_def by (erule for_loop_error) (rule sample_pi_row_error)



lemma forward_cell_error: "forward_cell st i t probs k = Inl e \<Longrightarrow> e = OutOfRange"
  unfolding forward_cell_def
  by (auto simp: ebind_Inl_iff split: if_splits elim!: for_loop_error dest: access_errors)

lemma forward_accumulate_error: "forward_accumulate st i t probs = Inl e \<Longrightarrow> e = OutOfRange"
  unfolding forward_accumulate_def
  by (auto simp: ebind_Inl_iff case_prod_beta
           elim!: for_loop_error dest: vec_put_error forward_cell_error)

lemma forward_timestep_error: "forward_timestep st i t probs = Inl e \<Longrightarrow> e = OutOfRange"
  unfolding forward_timestep_def
  by (auto simp: ebind_Inl_iff case_prod_beta dest: forward_accumulate_error)

lemma forward_filter_error: "forward_filter st i T = Inl e \<Longrightarrow> e = OutOfRange"
  unfolding forward_filter_def by (erule for_loop_error) (rule forward_timestep_error)

lemma backward_step_error: "backward_step P i t x = Inl e \<Longrightarrow> e = OutOfRange"
  unfolding backward_step_def
  by (auto simp: ebind_Inl_iff case_prod_beta split: if_splits
           elim!: for_loop_error dest: access_errors)

lemma backward_sample_error: "backward_sample P i T st probs = Inl e \<Longrightarrow> e = OutOfRange"
  unfolding backward_sample_def
  by (auto simp: ebind_Inl_iff case_prod_beta
           elim!: for_loop_error dest: access_errors backward_step_error)

lemma sample_s_error: "sample_s P st = Inl e \<Longrightarrow> e = OutOfRange"
  unfolding sample_s_def
  by (erule for_loop_error)
     (auto simp: ebind_Inl_iff dest: forward_filter_error backward_sample_error)

subsection \<open>Normalisation in the forward filter\<close>

lemma fl_div_zero_not_finite: "\<not> fl_finite (fl_div x (Fin 0))"
  by (cases x) (simp_all add: fl_inf_def)

lemma forward_normalize_Suc:
  "forward_normalize (Suc n) t tot pr =
     (forward_normalize n t tot pr)
       [t := (forward_normalize n t tot pr ! t)
               [n := fl_div (forward_normalize n t tot pr ! t ! n) tot]]"
  by (simp add: forward_normalize_def)

lemma forward_normalize_nth:
  assumes "t < length pr"
  shows "length (forward_normalize n t tot pr) = length pr
       \<and> length (forward_normalize n t tot pr ! t) = length (pr ! t)
       \<and> (\<forall>k < length (pr ! t). forward_normalize n t tot pr ! t ! k =
            (if k < n then fl_div (pr ! t ! k) tot else pr ! t ! k))"
proof (induction n)
  case 0
  show ?case by (simp add: forward_normalize_def)
next
  case (Suc n)
  then show ?case using assms
    by (auto simp: forward_normalize_Suc nth_list_update less_Suc_eq)
qed

lemma forward_accumulate_shape:
  assumes "forward_accumulate st i t probs = Inr x"
  shows "t < length probs \<and> length (fst x) = length probs \<and> length (fst x ! t) = K st"
proof -
  from assms obtain pr0 where put: "vec_put probs t (replicate (K st) (Fin 0)) = Inr pr0"
    and loop: "for_loop [0..<K st]
       (\<lambda>k (pr, total_prob).
          ebind (forward_cell st i t pr k) (\<lambda>v.
          Inr (pr[t := (pr ! t)[k := v]], fl_add total_prob v)))
       (pr0, Fin 0) = Inr x"
    by (auto simp: forward_accumulate_def ebind_Inr_iff)
  from put have t: "t < length probs" and pr0: "pr0 = probs[t := replicate (K st) (Fin 0)]"
    by (simp_all add: vec_put_def split: if_splits)
  from loop have "length (fst x) = length probs \<and> length (fst x ! t) = K st"
    by (rule for_loop_invariant[where
          I = "\<lambda>x. length (fst x) = length probs \<and> length (fst x ! t) = K st"])
       (use t pr0 in \<open>auto simp: ebind_Inr_iff case_prod_beta\<close>)
  with t show ?thesis by simp
qed

subsection \<open>Evaluation\<close>

lemmas eval_defs =
  det_provider_def prov_halves_def prov_quarters_def
  toy_def toy_one_def toy_seq_def toy_zero_def toy_room_def toy_none_def
  sample_pi_def sample_pi_row_def sample_m_def sample_m_cell_def sample_beta_def
  sample_u_def sample_u_slices_def sample_u_cell_def grow_row_def grow_step_def
  forward_cell_def forward_accumulate_def forward_normalize_def forward_timestep_def
  forward_filter_def backward_step_def backward_sample_def sample_s_def sample_beam_def
  sample_phi_def
  ebind_def vec_at_def vec_put_def mv_at_def mv_put_def push_back_def size_mv_def sum_mv_def
  mv_rows_def mv_empty_def size_t_add_def size_t_pred_def size_max_def fl_gt_def fl_sub_def
  fl_of_nat_def fl_inf_def

subsection \<open>The ragged array\<close>

lemma foldl_push_back: "foldl (\<lambda>sizes vec. push_back sizes (length vec)) acc d = acc @ map length d"
  by (induction d arbitrary: acc) (simp_all add: push_back_def)

lemma size_mv_eq: "size_mv d = replicate (length d) 0 @ map length d"
  by (simp add: size_mv_def foldl_push_back)

lemma length_size_mv: "length (size_mv d) = 2 * length d"
  by (simp add: size_mv_eq)

text \<open>
  C9. \<^verbatim>\<open>size()\<close> of a ragged array with the single row \<open>[7, 8, 9]\<close> is \<open>[0, 3]\<close>: two entries
  for one row, and entry 0 is 0 where the row has length 3. In general the result is one
  zero per row followed by the row lengths.
\<close>

theorem size_mv_one_row: "size_mv [[7, 8, 9 :: nat]] = [0, 3]"
  by (simp add: size_mv_def push_back_def)

subsection \<open>Construction\<close>

text \<open>
  C5, as the code has it. Construction checks nothing: for all hyperparameters and all
  observation sequences it succeeds, with one instantiated state, a transition matrix
  of one row and two columns and two stick weights (all zero).
\<close>

theorem hmm_ctor_succeeds:
  "\<exists>st. hmm_ctor N gamma alpha0 H data junk g = Inr st
     \<and> K st = 1 \<and> pi_m st = [[Fin 0, Fin 0]] \<and> beta_m st = [Fin 0, Fin 0]"
  by (simp add: hmm_ctor_def mv_uniform_def numeral_2_eq_2)

text \<open>
  C5, as stated, fails: with \<open>gamma = -1\<close> and \<open>alpha0 = 0\<close> and an observation sequence
  of length zero, construction does not fail.
\<close>

theorem hmm_ctor_no_validation:
  "hmm_ctor 2 (Fin (- 1)) (Fin 0) [Fin 1, Fin 1] [[]] (Fin 0) (0 :: nat) \<noteq> Inl InvalidHyperparameter
   \<and> hmm_ctor 2 (Fin (- 1)) (Fin 0) [Fin 1, Fin 1] [[]] (Fin 0) (0 :: nat) \<noteq> Inl DegenerateObservation
   \<and> hmm_ctor 2 (Fin 1) (Fin 1) [Fin 1, Fin 1] [[]] (Fin 0) (0 :: nat) \<noteq> Inl DegenerateObservation"
  by (simp add: hmm_ctor_def)

subsection \<open>Emission-matrix stage\<close>

text \<open>
  C10. \<^verbatim>\<open>sample_phi\<close> returns the sampler state it was given: the emission matrix and
  every other field are unchanged.
\<close>

theorem sample_phi_unchanged: "sample_phi st = Inr st"
  by (simp add: sample_phi_def)

subsection \<open>Slice variables\<close>

lemma mv_put_Inr:
  "mv_put d i j v = Inr d' \<Longrightarrow>
     i < length d \<and> j < length (d ! i) \<and> d' = d[i := (d ! i)[j := v]]"
  by (auto simp: mv_put_def vec_at_def vec_put_def ebind_Inr_iff split: if_splits)

lemma mv_at_mv_put: "mv_put d i j v = Inr d' \<Longrightarrow> mv_at d' i j = Inr v"
  by (auto simp: mv_at_def vec_at_def ebind_def dest!: mv_put_Inr)

lemma mv_at_mv_put_same_row:
  "mv_put d i j v = Inr d' \<Longrightarrow> mv_at d i j' = Inr v \<Longrightarrow> mv_at d' i j' = Inr v"
  by (cases "j' = j") (auto simp: mv_at_def vec_at_def ebind_def dest!: mv_put_Inr split: if_splits)

text \<open>The slice value stored at \<open>(i, j)\<close> is the uniform draw divided by the transition probability.\<close>

lemma sample_u_cell_stores_quotient:
  assumes "sample_u_cell P i j (st, min_u) = Inr (st', min_u')"
  shows "\<exists>prev cur p. (if j = 0 then Inr 0 else mv_at (s_m st) i (j - 1)) = Inr prev
           \<and> mv_at (s_m st) i j = Inr cur \<and> mv_at (pi_m st) prev cur = Inr p
           \<and> mv_at (u_m st') i j = Inr (fl_div (fst (uniform_real P (rng st))) p)"
  using assms
  by (auto simp: sample_u_cell_def ebind_Inr_iff case_prod_beta dest: mv_at_mv_put)

text \<open>
  C1. On the sampler \<open>toy_one\<close> (one sequence with one timestep, \<open>pi[0][0] = 1/2\<close>) and a
  uniform draw of \<open>1/2\<close>, the stage does not establish the invariant. The loops of
  \<^verbatim>\<open>sample_u\<close> take their bounds from \<^verbatim>\<open>u_.size()\<close>, which is \<open>[0, 1]\<close> here, so they address
  sequence 1 of a one-sequence array and the stage ends in an out-of-range access. The
  loop body itself, run at position \<open>(0, 0)\<close>, stores \<open>(1/2) / (1/2) = 1\<close> as the slice
  value, and the transition probability \<open>1/2\<close> is not greater than 1.
\<close>

theorem sample_u_slice_not_below_transition:
  "sample_u prov_halves toy_one = Inl OutOfRange
   \<and> sample_u_cell prov_halves 0 0 (toy_one, Fin 1) = Inr (toy_one\<lparr>u_m := [[Fin 1]], rng := 1\<rparr>, Fin 1)
   \<and> mv_at (pi_m toy_one) 0 0 = Inr (Fin (1/2))
   \<and> fl_gt (Fin (1/2)) (Fin 1) = False"
  by (simp add: eval_defs)

subsection \<open>Transition matrix\<close>

text \<open>After \<^verbatim>\<open>sample_pi_row(i)\<close> all \<open>K + 1\<close> columns of row \<open>i\<close> hold one and the same value.\<close>

lemma copy_loop_constant:
  assumes "for_loop js (\<lambda>j pm. ebind (vec_at new_pi i) (\<lambda>v. mv_put pm i j v)) pm = Inr pm'"
  shows "(\<forall>j \<in> set js. mv_at pm' i j = Inr (new_pi ! i))
       \<and> (\<forall>j. mv_at pm i j = Inr (new_pi ! i) \<longrightarrow> mv_at pm' i j = Inr (new_pi ! i))"
  using assms
proof (induction js arbitrary: pm)
  case Nil
  then show ?case by simp
next
  case (Cons j js)
  from Cons.prems obtain v pi1 where v: "vec_at new_pi i = Inr v"
    and put: "mv_put pm i j v = Inr pi1"
    and rest: "for_loop js (\<lambda>j pm. ebind (vec_at new_pi i) (\<lambda>v. mv_put pm i j v)) pi1 = Inr pm'"
    by (auto simp: ebind_Inr_iff split: sum.splits)
  from v have veq: "v = new_pi ! i" by (simp add: vec_at_def split: if_splits)
  from Cons.IH[OF rest] have ih1: "\<forall>j \<in> set js. mv_at pm' i j = Inr (new_pi ! i)"
    and ih2: "\<And>j. mv_at pi1 i j = Inr (new_pi ! i) \<Longrightarrow> mv_at pm' i j = Inr (new_pi ! i)"
    by simp_all
  from mv_at_mv_put[OF put] veq have "mv_at pi1 i j = Inr (new_pi ! i)" by simp
  from ih2[OF this] have here: "mv_at pm' i j = Inr (new_pi ! i)" .
  have keep: "mv_at pm' i j' = Inr (new_pi ! i)" if "mv_at pm i j' = Inr (new_pi ! i)" for j'
    using mv_at_mv_put_same_row[OF put, of j'] that veq ih2 by simp
  from ih1 here keep show ?case by simp
qed

lemma sample_pi_row_constant_row:
  assumes "sample_pi_row P i st = Inr st'"
  shows "\<exists>v. \<forall>j < K st + 1. mv_at (pi_m st') i j = Inr v"
proof -
  from assms obtain new_pi pm' where
    "for_loop [0..<K st + 1] (\<lambda>j pm. ebind (vec_at new_pi i) (\<lambda>v. mv_put pm i j v)) (pi_m st) = Inr pm'"
    and "pi_m st' = pm'"
    by (auto simp: sample_pi_row_def ebind_Inr_iff case_prod_beta simp del: upt_Suc)
  with copy_loop_constant[of "[0..<K st + 1]" new_pi i "pi_m st" pm'] show ?thesis
    by (auto simp del: upt_Suc)
qed

text \<open>
  C2. On the one-state sampler \<open>toy\<close>, with the Dirichlet draw \<open>[1/4, 3/4]\<close> for row 0,
  \<^verbatim>\<open>sample_pi\<close> stores \<open>[1/4, 1/4]\<close> as row 0: both columns receive component 0 of the
  draw, the row is not the drawn vector, and it sums to \<open>1/2\<close>.
\<close>

theorem sample_pi_row_repeats_one_component:
  "fst (dist_sample_dirichlet prov_quarters 0 2 [Fin (1/2), Fin (1/2)]) = [Fin (1/4), Fin (3/4)]
   \<and> sample_pi prov_quarters toy =
       Inr (toy\<lparr>pi_m := [[Fin (1/4), Fin (1/4)]], max_pi := Fin (3/4), rng := 1\<rparr>)"
  by (simp add: eval_defs)

subsection \<open>Transition counts\<close>

text \<open>
  C3. \<^verbatim>\<open>sample_s\<close> replaces \<^verbatim>\<open>counts_\<close> by \<^verbatim>\<open>pi_.size().size()\<close> empty rows and never writes
  to it again. On the one-state sampler \<open>toy\<close> with \<open>counts = [[5]]\<close> and no observations the
  stage returns \<open>counts = [[], []]\<close>, where \<open>counts[0][0]\<close> does not exist. On \<open>toy_seq\<close> (one
  sequence of two timesteps) the stage ends in an out-of-range access, because
  \<^verbatim>\<open>data_.size()\<close> is \<open>[0, 2]\<close>; the forward filter and the backward sampling of sequence 0,
  run with its true length 2, sample the state sequence \<open>[0, 0]\<close> with two draws and leave
  \<open>counts[0][0] = 0\<close>, although that sequence has one transition from state 0 to state 0.
\<close>

theorem sample_s_counts_not_accumulated:
  "sample_s prov_halves (toy\<lparr>counts_m := [[5]]\<rparr>) = Inr (toy\<lparr>counts_m := [[], []]\<rparr>)
   \<and> mv_at ([[], []] :: nat meta_vector) 0 0 = Inl OutOfRange
   \<and> sample_s prov_halves toy_seq = Inl OutOfRange
   \<and> forward_filter toy_seq 0 2 = Inr [[Fin 1], [Fin 1]]
   \<and> backward_sample prov_halves 0 2 toy_seq [[Fin 1], [Fin 1]] = Inr (toy_seq\<lparr>rng := 2\<rparr>)
   \<and> s_m toy_seq = [[0, 0]] \<and> counts_m toy_seq = [[0]]"
  by (simp add: eval_defs upt_conv_Cons numeral_2_eq_2)

subsection \<open>Zero normalising total\<close>

text \<open>
  C4 is about a zero normalising total met by a run of \<^verbatim>\<open>sample_s\<close>. No run gets that far:
  with at least one observation sequence the stage ends in an out-of-range access at
  sequence 0, before any timestep is filtered, because \<^verbatim>\<open>data_.size()\<close> begins with a zero
  and \<^verbatim>\<open>sizes[0]-1\<close> wraps.
\<close>

lemma sample_s_with_data: "data_m st \<noteq> [] \<Longrightarrow> sample_s P st = Inl OutOfRange"
proof -
  assume ne: "data_m st \<noteq> []"
  then have pos: "0 < length (data_m st)" by simp
  have sz: "size_mv (data_m st) ! 0 = 0"
    using pos by (simp add: size_mv_eq nth_append)
  have up: "[0..<length (size_mv (data_m st))] = 0 # [1..<length (size_mv (data_m st))]"
    using pos by (simp add: length_size_mv upt_conv_Cons)
  show ?thesis
    unfolding sample_s_def up
    by (simp add: sz forward_filter_def backward_sample_def mv_rows_def ebind_def vec_at_def)
qed

text \<open>
  The forward-filter block on its own, run on sequence 0 of \<open>toy_zero\<close> with the true
  length 1: the unnormalised probability and the total are 0 and the filtered
  probability is \<open>0/0\<close>.
\<close>

lemma forward_filter_zero_total_gives_nan:
  "forward_accumulate toy_zero 0 0 (mv_rows 1) = Inr ([[Fin 0]], Fin 0)
   \<and> forward_filter toy_zero 0 1 = Inr [[NaN]]"
  by (simp add: eval_defs)

text \<open>
  \<^verbatim>\<open>sample_s\<close> and its forward filter never return \<open>NumericUnderflow\<close>, and a timestep whose
  total is zero completes with every entry divided by that zero.
\<close>

lemma forward_zero_total_divides:
  "sample_s P st \<noteq> Inl NumericUnderflow
   \<and> forward_filter st i T \<noteq> Inl NumericUnderflow
   \<and> (forward_accumulate st i t probs = Inr (pr, Fin 0) \<longrightarrow>
        (\<exists>pr'. forward_timestep st i t probs = Inr pr'
           \<and> (\<forall>k < K st. pr' ! t ! k = fl_div (pr ! t ! k) (Fin 0)
                          \<and> \<not> fl_finite (pr' ! t ! k))))"
proof (intro conjI impI)
  show "sample_s P st \<noteq> Inl NumericUnderflow"
    using sample_s_error[of P st NumericUnderflow] by auto
  show "forward_filter st i T \<noteq> Inl NumericUnderflow"
    using forward_filter_error[of st i T NumericUnderflow] by auto
next
  assume acc: "forward_accumulate st i t probs = Inr (pr, Fin 0)"
  from forward_accumulate_shape[OF acc]
  have shape: "t < length pr" "length (pr ! t) = K st" by simp_all
  have ts: "forward_timestep st i t probs = Inr (forward_normalize (K st) t (Fin 0) pr)"
    by (simp add: forward_timestep_def acc ebind_def)
  from forward_normalize_nth[OF shape(1), of "K st" "Fin 0"] shape(2)
  have "\<forall>k < K st. forward_normalize (K st) t (Fin 0) pr ! t ! k = fl_div (pr ! t ! k) (Fin 0)"
    by simp
  with ts show "\<exists>pr'. forward_timestep st i t probs = Inr pr'
           \<and> (\<forall>k < K st. pr' ! t ! k = fl_div (pr ! t ! k) (Fin 0)
                          \<and> \<not> fl_finite (pr' ! t ! k))"
    by (simp add: fl_div_zero_not_finite)
qed

subsection \<open>The growth loop\<close>




















subsection \<open>Table counts\<close>

text \<open>For a transition count of zero the table count is the library's index for the empty score vector, plus one.\<close>

lemma sample_m_cell_zero_count:
  assumes "mv_at (counts_m st) i j = Inr 0" and "sample_m_cell P i j st = Inr st'"
  shows "mv_at (m_m st') i j =
           Inr (size_t_add (fst (dist_sample_from_scores_overwrite P (rng st) [])) 1)"
  using assms
  by (auto simp: sample_m_cell_def ebind_Inr_iff case_prod_beta dest: mv_at_mv_put)












subsection \<open>The number of states\<close>

lemma sample_u_slices_K_pair: "sample_u_slices P st = Inr (st', min_u) \<Longrightarrow> K st' = K st"
  by (drule sample_u_slices_K) simp

text \<open>
  C8. \<open>K\<close> does not decrease over any number of sweeps, nor over one sweep, nor over the
  slice-variable stage. One iteration of the growth loop adds one to \<open>K\<close>; the slice loops
  and the four other stages leave \<open>K\<close> as it is.
\<close>

theorem K_non_decreasing:
  "(sweeps P n st = Inr st' \<longrightarrow> K st \<le> K st')
   \<and> (sample_beam P sa = Inr sa' \<longrightarrow> K sa \<le> K sa')
   \<and> (sample_u P sb = Inr sb' \<longrightarrow> K sb \<le> K sb')
   \<and> (grow_step P sc = Inr sc' \<longrightarrow> K sc' = K sc + 1)
   \<and> (sample_u_slices P sd = Inr (sd', min_u) \<longrightarrow> K sd' = K sd)
   \<and> (sample_s P se = Inr se' \<longrightarrow> K se' = K se)
   \<and> (sample_pi P sf = Inr sf' \<longrightarrow> K sf' = K sf)
   \<and> (sample_phi sg = Inr sg' \<longrightarrow> K sg' = K sg)
   \<and> (sample_beta P sh = Inr sh' \<longrightarrow> K sh' = K sh)"
proof (intro conjI impI)
  show "K st \<le> K st'" if "sweeps P n st = Inr st'" using that by (rule sweeps_K)
  show "K sa \<le> K sa'" if "sample_beam P sa = Inr sa'" using that by (rule sample_beam_K)
  show "K sb \<le> K sb'" if "sample_u P sb = Inr sb'" using that by (rule sample_u_K)
  show "K sc' = K sc + 1" if "grow_step P sc = Inr sc'" using grow_step_frame[OF that] by simp
  show "K sd' = K sd" if "sample_u_slices P sd = Inr (sd', min_u)"
    using that by (rule sample_u_slices_K_pair)
  show "K se' = K se" if "sample_s P se = Inr se'" using sample_s_frame[OF that] by simp
  show "K sf' = K sf" if "sample_pi P sf = Inr sf'" using that by (rule sample_pi_K)
  show "K sg' = K sg" if "sample_phi sg = Inr sg'" using that by (simp add: sample_phi_def)
  show "K sh' = K sh" if "sample_beta P sh = Inr sh'" using that by (rule sample_beta_K)
qed

text \<open>
  The stages on sample inputs: the slice-variable stage and one growth iteration take
  \<open>K\<close> from 1 to 2 on \<open>toy_room\<close>; a whole sweep returns on \<open>toy_none\<close>.
\<close>

theorem K_non_decreasing_witness:
  "(\<exists>st'. sweeps prov_halves 2 toy_none = Inr st' \<and> K toy_none \<le> K st')
   \<and> (\<exists>st'. sample_beam prov_halves toy_none = Inr st' \<and> K toy_none \<le> K st')
   \<and> (\<exists>st'. sample_u prov_halves (toy_room\<lparr>max_pi := Fin 2\<rparr>) = Inr st'
          \<and> K (toy_room\<lparr>max_pi := Fin 2\<rparr>) \<le> K st' \<and> K st' = 2)
   \<and> (\<exists>st'. grow_step prov_halves toy_room = Inr st' \<and> K st' = K toy_room + 1)
   \<and> (\<exists>st' min_u. sample_u_slices prov_halves toy = Inr (st', min_u) \<and> K st' = K toy)
   \<and> (\<exists>st'. sample_s prov_halves toy = Inr st' \<and> K st' = K toy)
   \<and> (\<exists>st'. sample_pi prov_halves toy = Inr st' \<and> K st' = K toy)
   \<and> (\<exists>st'. sample_phi toy = Inr st' \<and> K st' = K toy)
   \<and> (\<exists>st'. sample_beta prov_halves toy = Inr st' \<and> K st' = K toy)"
proof -
  obtain x1 where e1: "sweeps prov_halves 2 toy_none = Inr x1"
    by (simp add: eval_defs sample_u_grow.simps numeral_2_eq_2)
  obtain x2 where e2: "sample_beam prov_halves toy_none = Inr x2"
    by (simp add: eval_defs sample_u_grow.simps)
  obtain x3 where e3: "sample_u prov_halves (toy_room\<lparr>max_pi := Fin 2\<rparr>) = Inr x3" and k3: "K x3 = 2"
    by (simp add: eval_defs sample_u_grow.simps)
  obtain x4 where e4: "grow_step prov_halves toy_room = Inr x4"
    by (simp add: eval_defs)
  obtain x5 m5 where e5: "sample_u_slices prov_halves toy = Inr (x5, m5)"
    by (simp add: eval_defs)
  obtain x6 where e6: "sample_s prov_halves toy = Inr x6"
    by (simp add: eval_defs)
  obtain x7 where e7: "sample_pi prov_halves toy = Inr x7"
    by (simp add: eval_defs)
  obtain x8 where e8: "sample_phi toy = Inr x8"
    by (simp add: eval_defs)
  obtain x9 where e9: "sample_beta prov_halves toy = Inr x9"
    by (simp add: eval_defs)
  note T = K_non_decreasing[where P = prov_halves and n = 2 and st = toy_none and st' = x1
      and sa = toy_none and sa' = x2 and sb = "toy_room\<lparr>max_pi := Fin 2\<rparr>" and sb' = x3
      and sc = toy_room and sc' = x4 and sd = toy and sd' = x5 and min_u = m5
      and se = toy and se' = x6 and sf = toy and sf' = x7 and sg = toy and sg' = x8
      and sh = toy and sh' = x9]
  from T e1 e2 e3 k3 e4 e5 e6 e7 e8 e9 show ?thesis by simp
qed

text \<open>
  A sweep that returns has no instantiated state: \<^verbatim>\<open>sample_s\<close> leaves \<^verbatim>\<open>counts_\<close> with empty
  rows, and \<^verbatim>\<open>sample_pi_row(0)\<close> reads \<^verbatim>\<open>counts_[0][0]\<close> as soon as \<open>K > 0\<close>.
\<close>

lemma sample_pi_row_reads_first_count:
  assumes "sample_pi_row P i st = Inr st'" and pos: "0 < K st"
  shows "\<exists>c. mv_at (counts_m st) i 0 = Inr c"
proof -
  from assms(1) obtain alphas where
    "for_loop [0..<K st]
            (\<lambda>k alphas.
               ebind (mv_at (counts_m st) i k) (\<lambda>c.
               ebind (vec_at (beta_m st) k) (\<lambda>b.
               Inr (alphas[k := fl_add (fl_of_nat c) (fl_mul (alpha0_m st) b)]))))
            (replicate (K st + 1) (Fin 0)) = Inr alphas"
    by (auto simp: sample_pi_row_def ebind_Inr_iff)
  from for_loop_upt_first[OF pos this] show ?thesis
    by (auto simp: ebind_Inr_iff)
qed

lemma sample_beam_returns_without_states:
  assumes "sample_beam P st = Inr st'"
  shows "K st' = 0"
proof (rule ccontr)
  assume nz: "K st' \<noteq> 0"
  from assms obtain st1 st2 st3 where u: "sample_u P st = Inr st1"
    and s: "sample_s P st1 = Inr st2" and p: "sample_pi P st2 = Inr st3"
    and b: "sample_beta P st3 = Inr st'"
    by (auto simp: sample_beam_def sample_phi_def ebind_Inr_iff)
  from sample_beta_K[OF b] sample_pi_K[OF p] nz have pos: "0 < K st2" by simp
  from sample_s_frame[OF s] have c: "counts_m st2 = mv_rows (length (size_mv (pi_m st1)))"
    by simp
  from p pos obtain y where "sample_pi_row P 0 (st2\<lparr>max_pi := Fin 0\<rparr>) = Inr y"
    unfolding sample_pi_def by (auto dest: for_loop_upt_first)
  from sample_pi_row_reads_first_count[OF this] pos
  obtain v where "mv_at (counts_m st2) 0 0 = Inr v" by auto
  then show False
    unfolding c by (auto simp: mv_rows_def dest!: mv_at_Inr)
qed

end
